theory Spec2Isabelle
  imports Main "HOL-Library.Sublist"
begin

section \<open>Python values used by the shim\<close>

text \<open>
  A Python \<open>str\<close> is a sequence of Unicode code points, a \<open>bytes\<close> object a sequence
  of octets. Both are lists of natural numbers here: a code point is below \<open>0x110000\<close>
  (lone surrogates \<open>0xD800..0xDFFF\<close> included, as in Python), an octet is below
  \<open>256\<close>. \<open>s.startswith(p)\<close> is \<open>prefix p s\<close>, \<open>s[n:]\<close> is \<open>drop n s\<close>,
  \<open>c in s\<close> is \<open>c \<in> set s\<close>.
\<close>

type_synonym pystr = "nat list"

type_synonym bytes = "nat list"

definition lit :: "string \<Rightarrow> pystr" where
  "lit cs = map of_char cs"

datatype py_error =
    UnicodeEncodeError
  | UnicodeDecodeError
  | AttributeError
  | TypeError
  | ValueError
  | JSONDecodeError
  | OSError

subsection \<open>The UTF-8 codec\<close>

text \<open>
  \<open>str.encode('utf-8')\<close> with the default error handler \<open>strict\<close>: a surrogate code
  point cannot be encoded and raises \<open>UnicodeEncodeError\<close> (the value \<open>None\<close> here).
\<close>

definition is_surrogate :: "nat \<Rightarrow> bool" where
  "is_surrogate cp = (0xD800 \<le> cp \<and> cp \<le> 0xDFFF)"

definition utf8_encode_cp :: "nat \<Rightarrow> bytes option" where
  "utf8_encode_cp cp =
    (if cp < 0x80 then Some [cp]
     else if cp < 0x800 then Some [0xC0 + cp div 64, 0x80 + cp mod 64]
     else if cp < 0x10000 then
       (if is_surrogate cp then None
        else Some [0xE0 + cp div 4096, 0x80 + cp div 64 mod 64, 0x80 + cp mod 64])
     else if cp < 0x110000 then
       Some [0xF0 + cp div 262144, 0x80 + cp div 4096 mod 64,
             0x80 + cp div 64 mod 64, 0x80 + cp mod 64]
     else None)"

fun utf8_encode :: "pystr \<Rightarrow> bytes option" where
  "utf8_encode [] = Some []"
| "utf8_encode (c # cs) =
    (case utf8_encode_cp c of
       None \<Rightarrow> None
     | Some bs \<Rightarrow> (case utf8_encode cs of None \<Rightarrow> None | Some r \<Rightarrow> Some (bs @ r)))"

text \<open>
  The decoder reads one code point at a time. A well-formed sequence gives \<open>Some cp\<close>;
  an ill-formed one gives a single \<open>None\<close> for its longest prefix that could still start
  a code point (an invalid start byte alone, or the lead byte with the continuation
  bytes accepted so far), and decoding goes on right after it. The second byte of a
  three or four byte sequence is restricted so that overlong forms, surrogates and
  values above \<open>0x10FFFF\<close> are ill-formed.
\<close>

definition is_cont :: "nat \<Rightarrow> bool" where
  "is_cont b = (0x80 \<le> b \<and> b < 0xC0)"

definition second_ok :: "nat \<Rightarrow> nat \<Rightarrow> bool" where
  "second_ok b b2 =
    (if b = 0xE0 then 0xA0 \<le> b2 \<and> b2 < 0xC0
     else if b = 0xED then 0x80 \<le> b2 \<and> b2 < 0xA0
     else if b = 0xF0 then 0x90 \<le> b2 \<and> b2 < 0xC0
     else if b = 0xF4 then 0x80 \<le> b2 \<and> b2 < 0x90
     else is_cont b2)"

fun utf8_decode_items :: "bytes \<Rightarrow> nat option list" where
  "utf8_decode_items [] = []"
| "utf8_decode_items (b # bs) =
    (if b < 0x80 then Some b # utf8_decode_items bs
     else if b < 0xC2 \<or> 0xF5 \<le> b then None # utf8_decode_items bs
     else (case bs of
        [] \<Rightarrow> [None]
      | b2 # bs2 \<Rightarrow>
         if \<not> second_ok b b2 then None # utf8_decode_items bs
         else if b < 0xE0 then
           Some ((b - 0xC0) * 64 + (b2 - 0x80)) # utf8_decode_items bs2
         else (case bs2 of
            [] \<Rightarrow> [None]
          | b3 # bs3 \<Rightarrow>
             if \<not> is_cont b3 then None # utf8_decode_items bs2
             else if b < 0xF0 then
               Some ((b - 0xE0) * 4096 + (b2 - 0x80) * 64 + (b3 - 0x80))
                 # utf8_decode_items bs3
             else (case bs3 of
                [] \<Rightarrow> [None]
              | b4 # bs4 \<Rightarrow>
                 if \<not> is_cont b4 then None # utf8_decode_items bs3
                 else
                   Some ((b - 0xF0) * 262144 + (b2 - 0x80) * 4096
                         + (b3 - 0x80) * 64 + (b4 - 0x80))
                     # utf8_decode_items bs4))))"

text \<open>\<open>bytes.decode('utf-8', errors='replace')\<close>: every error becomes U+FFFD.\<close>

definition utf8_decode_replace :: "bytes \<Rightarrow> pystr" where
  "utf8_decode_replace bs =
    map (\<lambda>item. case item of None \<Rightarrow> 0xFFFD | Some cp \<Rightarrow> cp) (utf8_decode_items bs)"

text \<open>\<open>bytes.decode('utf-8')\<close>: the first error raises \<open>UnicodeDecodeError\<close>.\<close>

definition utf8_decode_strict :: "bytes \<Rightarrow> pystr option" where
  "utf8_decode_strict bs =
    (let items = utf8_decode_items bs
     in if None \<in> set items then None else Some (map the items))"

subsection \<open>\<open>urllib.parse.quote\<close> and \<open>urllib.parse.unquote\<close>\<close>

text \<open>
  \<open>quote(string, safe)\<close> returns the empty string as it is, encodes any other string
  to UTF-8 (strict) and writes every octet that is not a letter, a digit, one of
  \<open>_.-~\<close> or an ASCII character of \<open>safe\<close> as \<open>%XX\<close> with upper-case hexadecimal
  digits.
\<close>

definition always_safe :: "nat \<Rightarrow> bool" where
  "always_safe b =
    ((65 \<le> b \<and> b \<le> 90) \<or> (97 \<le> b \<and> b \<le> 122) \<or> (48 \<le> b \<and> b \<le> 57)
     \<or> b = 95 \<or> b = 46 \<or> b = 45 \<or> b = 126)"

definition hex_upper :: "nat \<Rightarrow> nat" where
  "hex_upper d = (if d < 10 then 48 + d else 55 + d)"

definition quote_byte :: "pystr \<Rightarrow> nat \<Rightarrow> pystr" where
  "quote_byte safe b =
    (if always_safe b \<or> (b < 128 \<and> b \<in> set safe) then [b]
     else [37, hex_upper (b div 16), hex_upper (b mod 16)])"

definition quote :: "pystr \<Rightarrow> pystr \<Rightarrow> py_error + pystr" where
  "quote string safe =
    (if string = [] then Inr string
     else (case utf8_encode string of
        None \<Rightarrow> Inl UnicodeEncodeError
      | Some bs \<Rightarrow> Inr (concat (map (quote_byte safe) bs))))"

text \<open>
  \<open>unquote(string)\<close> returns a string without \<open>%\<close> as it is. Otherwise it cuts the
  string into runs of ASCII characters and runs of other characters; in an ASCII run
  every \<open>%XX\<close> with two hexadecimal digits (either case) becomes the octet it names,
  any other \<open>%\<close> stays, and the run is decoded as UTF-8 with \<open>errors='replace'\<close>; the
  other runs are copied.
\<close>

definition is_hex :: "nat \<Rightarrow> bool" where
  "is_hex c = ((48 \<le> c \<and> c \<le> 57) \<or> (65 \<le> c \<and> c \<le> 70) \<or> (97 \<le> c \<and> c \<le> 102))"

definition hex_val :: "nat \<Rightarrow> nat" where
  "hex_val c = (if c \<le> 57 then c - 48 else if c \<le> 70 then c - 55 else c - 87)"

fun unquote_to_bytes :: "pystr \<Rightarrow> bytes" where
  "unquote_to_bytes [] = []"
| "unquote_to_bytes (c # cs) =
    (if c = 37 then
       (case cs of
          h1 # h2 # rest \<Rightarrow>
            if is_hex h1 \<and> is_hex h2
            then (16 * hex_val h1 + hex_val h2) # unquote_to_bytes rest
            else 37 # unquote_to_bytes cs
        | _ \<Rightarrow> 37 # unquote_to_bytes cs)
     else c # unquote_to_bytes cs)"

definition unquote_run :: "pystr \<Rightarrow> pystr" where
  "unquote_run run = (if run = [] then [] else utf8_decode_replace (unquote_to_bytes run))"

fun unquote_parts :: "pystr \<Rightarrow> pystr \<Rightarrow> pystr" where
  "unquote_parts run [] = unquote_run run"
| "unquote_parts run (c # cs) =
    (if c < 128 then unquote_parts (run @ [c]) cs
     else unquote_run run @ c # unquote_parts [] cs)"

definition unquote :: "pystr \<Rightarrow> pystr" where
  "unquote string = (if 37 \<notin> set string then string else unquote_parts [] string)"

section \<open>Messages\<close>

text \<open>
  A message is what \<open>json.loads\<close> returns: \<open>None\<close>, a \<open>bool\<close>, a number (\<open>int\<close> or
  \<open>float\<close>; the shim never looks inside one, so the number type is a parameter), a
  \<open>str\<close>, a \<open>list\<close> or a \<open>dict\<close> with string keys. A \<open>dict\<close> keeps its keys in
  insertion order and holds each key once: it is the list of its items, and
  \<open>wf_json\<close> says that no key is repeated.
\<close>

datatype 'n json =
    JNull
  | JBool bool
  | JNum 'n
  | JStr pystr
  | JArr "'n json list"
  | JObj "(pystr \<times> 'n json) list"


text \<open>\<open>d[key] = value\<close> on a dict, and the dict a sequence of such assignments builds.\<close>

fun dict_set :: "('k \<times> 'v) list \<Rightarrow> 'k \<Rightarrow> 'v \<Rightarrow> ('k \<times> 'v) list" where
  "dict_set [] key v = [(key, v)]"
| "dict_set ((k, w) # d) key v = (if k = key then (k, v) # d else (k, w) # dict_set d key v)"

definition dict_of_items :: "('k \<times> 'v) list \<Rightarrow> ('k \<times> 'v) list" where
  "dict_of_items kvs = foldl (\<lambda>d kv. dict_set d (fst kv) (snd kv)) [] kvs"

section \<open>PathRewriter\<close>

definition PATH_KEYS :: "pystr list" where
  "PATH_KEYS = map lit
    [''uri'', ''targetUri'', ''source'', ''file'', ''path'',
     ''rootPath'', ''rootUri'', ''workspaceFolders'',
     ''documentUri'', ''newUri'', ''oldUri'', ''baseUri'',
     ''referenceUri'', ''targetRange'', ''targetSelectionRange'']"

definition PATH_ARRAY_KEYS :: "pystr list" where
  "PATH_ARRAY_KEYS = map lit [''workspaceFolders'', ''files'', ''includedFiles'', ''excludedFiles'']"

definition encode_uri_component :: "pystr \<Rightarrow> py_error + pystr" where
  "encode_uri_component path = quote path (lit ''/'')"

definition decode_uri_component :: "pystr \<Rightarrow> pystr" where
  "decode_uri_component path = unquote path"

text \<open>
  The body of the \<open>value.startswith("file://")\<close> branch of \<open>rewrite_path\<close> (source lines
  90 to 101) and of its \<open>value.startswith("file:///")\<close> branch (lines 105 to 115).
\<close>

definition file_uri2_branch :: "pystr \<Rightarrow> pystr \<Rightarrow> pystr \<Rightarrow> py_error + pystr" where
  "file_uri2_branch v from_prefix to_prefix =
    (let path = drop 7 v;
         path = (if 37 \<in> set path then decode_uri_component path else path)
     in if prefix from_prefix path then
          (case encode_uri_component (to_prefix @ drop (length from_prefix) path) of
             Inl e \<Rightarrow> Inl e
           | Inr q \<Rightarrow> Inr (lit ''file://'' @ q))
        else Inr v)"

definition file_uri3_branch :: "pystr \<Rightarrow> pystr \<Rightarrow> pystr \<Rightarrow> py_error + pystr" where
  "file_uri3_branch v from_prefix to_prefix =
    (let path = drop 8 v;
         path = (if 37 \<in> set path then decode_uri_component path else path)
     in if prefix from_prefix path then
          (case encode_uri_component (to_prefix @ drop (length from_prefix) path) of
             Inl e \<Rightarrow> Inl e
           | Inr q \<Rightarrow> Inr (lit ''file:///'' @ q))
        else Inr v)"

definition rewrite_str :: "pystr \<Rightarrow> pystr \<Rightarrow> pystr \<Rightarrow> py_error + pystr" where
  "rewrite_str v from_prefix to_prefix =
    (if prefix (lit ''file://'') v then file_uri2_branch v from_prefix to_prefix
     else if prefix (lit ''file:///'') v then file_uri3_branch v from_prefix to_prefix
     else if prefix from_prefix v then Inr (to_prefix @ drop (length from_prefix) v)
     else Inr v)"

fun rewrite_path :: "'n json \<Rightarrow> pystr \<Rightarrow> pystr \<Rightarrow> py_error + 'n json" where
  "rewrite_path (JStr v) from_prefix to_prefix =
    (case rewrite_str v from_prefix to_prefix of Inl e \<Rightarrow> Inl e | Inr r \<Rightarrow> Inr (JStr r))"
| "rewrite_path v from_prefix to_prefix = Inr v"

text \<open>
  \<open>rewrite_object\<close>, with its three loops as functions of their own: \<open>rewrite_items\<close>
  is the loop over \<open>obj.items()\<close> and gives the assignments \<open>result[key] = ...\<close> in
  order, \<open>rewrite_path_list\<close> is the comprehension of lines 145 to 148 and
  \<open>rewrite_list\<close> the one of lines 153 to 154 and of line 161. An exception raised
  for one element ends the whole call.
\<close>

fun rewrite_object :: "'n json \<Rightarrow> pystr \<Rightarrow> pystr \<Rightarrow> py_error + 'n json"
  and rewrite_items ::
    "(pystr \<times> 'n json) list \<Rightarrow> pystr \<Rightarrow> pystr \<Rightarrow> py_error + (pystr \<times> 'n json) list"
  and rewrite_path_list :: "'n json list \<Rightarrow> pystr \<Rightarrow> pystr \<Rightarrow> py_error + 'n json list"
  and rewrite_list :: "'n json list \<Rightarrow> pystr \<Rightarrow> pystr \<Rightarrow> py_error + 'n json list"
where
  "rewrite_object (JObj kvs) f t =
    (case rewrite_items kvs f t of
       Inl e \<Rightarrow> Inl e
     | Inr r \<Rightarrow> Inr (JObj (dict_of_items r)))"
| "rewrite_object (JArr xs) f t =
    (case rewrite_list xs f t of Inl e \<Rightarrow> Inl e | Inr r \<Rightarrow> Inr (JArr r))"
| "rewrite_object (JStr s) f t =
    (if prefix f s \<or> prefix (lit ''file://'') s then rewrite_path (JStr s) f t
     else Inr (JStr s))"
| "rewrite_object JNull f t = Inr JNull"
| "rewrite_object (JBool b) f t = Inr (JBool b)"
| "rewrite_object (JNum n) f t = Inr (JNum n)"
| "rewrite_items [] f t = Inr []"
| "rewrite_items ((key, v) # kvs) f t =
    (case
       (if key \<in> set PATH_KEYS then
          (case v of
             JStr s \<Rightarrow> rewrite_path v f t
           | JArr xs \<Rightarrow>
               (case rewrite_path_list xs f t of Inl e \<Rightarrow> Inl e | Inr r \<Rightarrow> Inr (JArr r))
           | _ \<Rightarrow> rewrite_object v f t)
        else
          (case v of
             JArr xs \<Rightarrow>
               if key = lit ''workspaceFolders'' then
                 (case rewrite_list xs f t of Inl e \<Rightarrow> Inl e | Inr r \<Rightarrow> Inr (JArr r))
               else rewrite_object v f t
           | _ \<Rightarrow> rewrite_object v f t))
     of
       Inl e \<Rightarrow> Inl e
     | Inr v' \<Rightarrow>
         (case rewrite_items kvs f t of
            Inl e \<Rightarrow> Inl e
          | Inr r \<Rightarrow> Inr ((key, v') # r)))"
| "rewrite_path_list [] f t = Inr []"
| "rewrite_path_list (item # xs) f t =
    (case (case item of JStr s \<Rightarrow> rewrite_path item f t | _ \<Rightarrow> rewrite_object item f t) of
       Inl e \<Rightarrow> Inl e
     | Inr item' \<Rightarrow>
         (case rewrite_path_list xs f t of
            Inl e \<Rightarrow> Inl e
          | Inr r \<Rightarrow> Inr (item' # r)))"
| "rewrite_list [] f t = Inr []"
| "rewrite_list (item # xs) f t =
    (case rewrite_object item f t of
       Inl e \<Rightarrow> Inl e
     | Inr item' \<Rightarrow>
         (case rewrite_list xs f t of
            Inl e \<Rightarrow> Inl e
          | Inr r \<Rightarrow> Inr (item' # r)))"

section \<open>Python library functions used by the framer\<close>

text \<open>
  \<open>s.split(sep, 1)\<close> unpacked into two names: the text before the first separator and
  the text after it; \<open>None\<close> when there is no separator (the unpacking raises
  \<open>ValueError\<close>).
\<close>

definition split_once :: "nat \<Rightarrow> pystr \<Rightarrow> (pystr \<times> pystr) option" where
  "split_once sep s =
    (if sep \<in> set s
     then Some (takeWhile (\<lambda>c. c \<noteq> sep) s, tl (dropWhile (\<lambda>c. c \<noteq> sep) s))
     else None)"

text \<open>
  \<open>str.strip()\<close> removes the white space of \<open>str.isspace\<close> at both ends.
  \<open>str.lower()\<close> is modelled on ASCII letters; Python also maps cased letters outside
  ASCII, none of which becomes a character of \<open>content-length\<close>, the only key the shim
  looks up.
\<close>

definition py_isspace :: "nat \<Rightarrow> bool" where
  "py_isspace c =
    ((0x09 \<le> c \<and> c \<le> 0x0D) \<or> (0x1C \<le> c \<and> c \<le> 0x20) \<or> c = 0x85 \<or> c = 0xA0
     \<or> c = 0x1680 \<or> (0x2000 \<le> c \<and> c \<le> 0x200A) \<or> c = 0x2028 \<or> c = 0x2029
     \<or> c = 0x202F \<or> c = 0x205F \<or> c = 0x3000)"

definition strip_chars :: "(nat \<Rightarrow> bool) \<Rightarrow> pystr \<Rightarrow> pystr" where
  "strip_chars space s = rev (dropWhile space (rev (dropWhile space s)))"

definition strip :: "pystr \<Rightarrow> pystr" where
  "strip s = strip_chars py_isspace s"

definition lower :: "pystr \<Rightarrow> pystr" where
  "lower s = map (\<lambda>c. if 65 \<le> c \<and> c \<le> 90 then c + 32 else c) s"

text \<open>
  \<open>int(s)\<close> for a string: white space around it is dropped (for \<open>int\<close> the ASCII
  white space is tab to carriage return and the blank, without the separators
  \<open>0x1C..0x1F\<close>), then an optional sign and decimal digits, where single underscores
  may stand between digits; anything else raises \<open>ValueError\<close> (\<open>None\<close>). Decimal
  digits outside ASCII, which Python accepts as well, and the limit on the number of
  digits are not modelled. \<open>str(n)\<close> for a length \<open>n\<close> is its decimal numeral.
\<close>

definition int_isspace :: "nat \<Rightarrow> bool" where
  "int_isspace c = ((0x09 \<le> c \<and> c \<le> 0x0D) \<or> c = 0x20 \<or> (128 \<le> c \<and> py_isspace c))"

definition is_digit :: "nat \<Rightarrow> bool" where
  "is_digit c = (48 \<le> c \<and> c \<le> 57)"

fun int_digits :: "nat \<Rightarrow> pystr \<Rightarrow> nat option" where
  "int_digits acc [] = Some acc"
| "int_digits acc [c] = (if is_digit c then Some (10 * acc + (c - 48)) else None)"
| "int_digits acc (c # d # cs) =
    (if is_digit c then int_digits (10 * acc + (c - 48)) (d # cs)
     else if c = 95 \<and> is_digit d then int_digits (10 * acc + (d - 48)) cs
     else None)"

definition int_unsigned :: "pystr \<Rightarrow> nat option" where
  "int_unsigned s =
    (case s of
       [] \<Rightarrow> None
     | c # cs \<Rightarrow> if is_digit c then int_digits (c - 48) cs else None)"

definition py_int :: "pystr \<Rightarrow> int option" where
  "py_int s =
    (case strip_chars int_isspace s of
       [] \<Rightarrow> None
     | c # cs \<Rightarrow>
         if c = 45 then map_option (\<lambda>n. - int n) (int_unsigned cs)
         else if c = 43 then map_option int (int_unsigned cs)
         else map_option int (int_unsigned (c # cs)))"

fun str_nat :: "nat \<Rightarrow> pystr" where
  "str_nat n = (if n < 10 then [48 + n] else str_nat (n div 10) @ [48 + n mod 10])"

declare str_nat.simps [simp del]

text \<open>
  \<open>json.dumps(message, separators=(',', ':'))\<close> and \<open>json.loads\<close> belong to the
  standard library: they are parameters of the model, \<open>None\<close> standing for the
  exception either may raise.
\<close>

record 'n json_codec =
  dumps :: "'n json \<Rightarrow> pystr option"
  loads :: "pystr \<Rightarrow> 'n json option"

section \<open>Byte streams\<close>

text \<open>
  An input stream is the list of the octets still to be read; its end is the end of
  the stream, and every octet is there when it is asked for. \<open>readline()\<close> reads up
  to and including the next \<open>\n\<close>, or to the end; \<open>read(n)\<close> reads \<open>n\<close> octets, or what
  is left, and everything when \<open>n\<close> is negative. Both return the octets read and the
  stream after them.
\<close>

fun readline :: "bytes \<Rightarrow> bytes \<times> bytes" where
  "readline [] = ([], [])"
| "readline (b # bs) =
    (if b = 10 then ([b], bs) else (case readline bs of (line, rest) \<Rightarrow> (b # line, rest)))"

definition stream_read :: "int \<Rightarrow> bytes \<Rightarrow> bytes \<times> bytes" where
  "stream_read n s = (if n < 0 then (s, []) else (take (nat n) s, drop (nat n) s))"

text \<open>
  An output stream holds what was written to it. Its \<open>budget\<close> says how it fails:
  with \<open>None\<close> no call fails, with \<open>Some k\<close> the next \<open>k\<close> calls of \<open>write\<close> and \<open>flush\<close>
  succeed and every later one raises \<open>OSError\<close> (a closed pipe).
\<close>

record ostream =
  written :: bytes
  budget :: "nat option"

definition stream_write :: "ostream \<Rightarrow> bytes \<Rightarrow> py_error + ostream" where
  "stream_write stream bs =
    (case budget stream of
       None \<Rightarrow> Inr (stream\<lparr>written := written stream @ bs\<rparr>)
     | Some 0 \<Rightarrow> Inl OSError
     | Some (Suc k) \<Rightarrow> Inr (stream\<lparr>written := written stream @ bs, budget := Some k\<rparr>))"

definition stream_flush :: "ostream \<Rightarrow> py_error + ostream" where
  "stream_flush stream =
    (case budget stream of
       None \<Rightarrow> Inr stream
     | Some 0 \<Rightarrow> Inl OSError
     | Some (Suc k) \<Rightarrow> Inr (stream\<lparr>budget := Some k\<rparr>))"

section \<open>JsonRpcProxy\<close>

text \<open>The calls of the logger, in order; the level decides elsewhere what is printed.\<close>

datatype log_event =
    LogStartingLoop
  | LogNoContentLength
  | LogExpectedBytes int nat
  | LogJsonDecodeError
  | LogErrorReading py_error
  | LogErrorWriting py_error
  | LogClientDisconnected
  | LogServerDisconnected
  | LogUnexpectedError py_error
  | LogShuttingDown
  | LogShutdownComplete

subsection \<open>\<open>read_message\<close>\<close>

text \<open>
  The header loop of \<open>read_message\<close> (lines 231 to 239). It ends with the stream at its
  end (the function returns \<open>None\<close>), with an exception, or at the blank line with the
  headers read.
\<close>

datatype header_result =
    StreamEnded
  | HeaderError py_error bytes
  | Headers "(pystr \<times> pystr) list" bytes

lemma readline_shorter:
  "readline s = (line, rest) \<Longrightarrow> line \<noteq> [] \<Longrightarrow> length rest < length s"
proof (induction s arbitrary: line rest)
  case Nil
  then show ?case by simp
next
  case (Cons b bs)
  show ?case
  proof (cases "b = 10")
    case True
    with Cons.prems show ?thesis by auto
  next
    case False
    obtain l r where lr: "readline bs = (l, r)" by (cases "readline bs")
    with False Cons.prems have rest: "rest = r" by auto
    have "length r \<le> length bs"
    proof (cases "l = []")
      case True
      with lr have "r = []" by (cases bs) (auto split: if_splits prod.splits)
      then show ?thesis by simp
    next
      case False
      with Cons.IH [OF lr] show ?thesis by simp
    qed
    with rest show ?thesis by simp
  qed
qed

function read_headers :: "(pystr \<times> pystr) list \<Rightarrow> bytes \<Rightarrow> header_result" where
  "read_headers headers s =
    (case readline s of
       (line, rest) \<Rightarrow>
         if line = [] then StreamEnded
         else if line = [13, 10] then Headers headers rest
         else if 58 \<in> set line then
           (case split_once 58 (utf8_decode_replace line) of
              None \<Rightarrow> HeaderError ValueError rest
            | Some (key, v) \<Rightarrow>
                read_headers (dict_set headers (lower (strip key)) (strip v)) rest)
         else read_headers headers rest)"
  by pat_completeness auto
termination
  by (relation "measure (\<lambda>(headers, s). length s)") (auto dest: readline_shorter [OF sym])

declare read_headers.simps [simp del]

text \<open>\<open>int(headers.get("content-length", 0))\<close>; \<open>None\<close> when \<open>int\<close> raises.\<close>

definition content_length_of :: "(pystr \<times> pystr) list \<Rightarrow> int option" where
  "content_length_of headers =
    (case map_of headers (lit ''content-length'') of None \<Rightarrow> Some 0 | Some v \<Rightarrow> py_int v)"

text \<open>
  \<open>read_message\<close> returns the value read (\<open>JNull\<close> is Python's \<open>None\<close>), what it
  logged and the stream after the call. Every exception is caught inside.
\<close>

definition read_message :: "'n json_codec \<Rightarrow> bytes \<Rightarrow> 'n json \<times> log_event list \<times> bytes" where
  "read_message codec s =
    (case read_headers [] s of
       StreamEnded \<Rightarrow> (JNull, [], [])
     | HeaderError e rest \<Rightarrow> (JNull, [LogErrorReading e], rest)
     | Headers headers rest \<Rightarrow>
         (case content_length_of headers of
            None \<Rightarrow> (JNull, [LogErrorReading ValueError], rest)
          | Some content_length \<Rightarrow>
              if content_length = 0 then (JNull, [LogNoContentLength], rest)
              else
                (case stream_read content_length rest of
                   (body, rest') \<Rightarrow>
                     if int (length body) \<noteq> content_length
                     then (JNull, [LogExpectedBytes content_length (length body)], rest')
                     else
                       (case utf8_decode_strict body of
                          None \<Rightarrow> (JNull, [LogErrorReading UnicodeDecodeError], rest')
                        | Some text \<Rightarrow>
                            (case loads codec text of
                               None \<Rightarrow> (JNull, [LogJsonDecodeError], rest')
                             | Some v \<Rightarrow> (v, [], rest'))))))"

subsection \<open>\<open>write_message\<close>\<close>

text \<open>
  \<open>write_message\<close> returns the stream after the call and what it logged. Every
  exception, of the serialisation or of the stream, is caught and logged.
\<close>

definition write_message :: "'n json_codec \<Rightarrow> ostream \<Rightarrow> 'n json \<Rightarrow> ostream \<times> log_event list" where
  "write_message codec stream message =
    (case dumps codec message of
       None \<Rightarrow> (stream, [LogErrorWriting TypeError])
     | Some content \<Rightarrow>
         (case utf8_encode content of
            None \<Rightarrow> (stream, [LogErrorWriting UnicodeEncodeError])
          | Some content_bytes \<Rightarrow>
              (case utf8_encode
                      (lit ''Content-Length: '' @ str_nat (length content_bytes)
                        @ [13, 10, 13, 10]) of
                 None \<Rightarrow> (stream, [LogErrorWriting UnicodeEncodeError])
               | Some header_bytes \<Rightarrow>
                   (case stream_write stream header_bytes of
                      Inl e \<Rightarrow> (stream, [LogErrorWriting e])
                    | Inr s1 \<Rightarrow>
                        (case stream_write s1 content_bytes of
                           Inl e \<Rightarrow> (s1, [LogErrorWriting e])
                         | Inr s2 \<Rightarrow>
                             (case stream_flush s2 of
                                Inl e \<Rightarrow> (s2, [LogErrorWriting e])
                              | Inr s3 \<Rightarrow> (s3, [])))))))"

subsection \<open>\<open>process_message\<close>\<close>

record config =
  HOST_ROOT :: pystr
  CONTAINER_ROOT :: pystr

text \<open>
  \<open>message.get("method", "")\<close> raises \<open>AttributeError\<close> when the message is not a
  dict. The debug line it feeds is not modelled.
\<close>

definition process_message :: "config \<Rightarrow> 'n json \<Rightarrow> pystr \<Rightarrow> py_error + 'n json" where
  "process_message cfg message direction =
    (case (if direction = lit ''to_container'' then (HOST_ROOT cfg, CONTAINER_ROOT cfg)
           else (CONTAINER_ROOT cfg, HOST_ROOT cfg)) of
       (from_prefix, to_prefix) \<Rightarrow>
         (case message of
            JObj kvs \<Rightarrow> rewrite_object message from_prefix to_prefix
          | _ \<Rightarrow> Inl AttributeError))"

subsection \<open>\<open>run\<close> and \<open>shutdown\<close>\<close>

text \<open>
  The state of the proxy: what the client still sends (\<open>sys.stdin.buffer\<close>), the
  stream to the client (\<open>sys.stdout.buffer\<close>), the two pipes of the child, the flag
  \<open>running\<close>, and the child process. The output of the child is given in advance, up to
  the point where the child closes it. \<open>exits_on_terminate\<close> says whether the child
  exits within the five seconds \<open>shutdown\<close> waits after \<open>terminate()\<close>.
\<close>

datatype child_status = ChildRunning | ChildExited | ChildTerminated | ChildKilled

record proxy =
  stdin :: bytes
  stdout :: ostream
  child_stdin :: ostream
  child_stdout :: bytes
  running :: bool
  child :: child_status
  exits_on_terminate :: bool
  shutdown_calls :: nat
  log :: "log_event list"

text \<open>\<open>key in obj\<close>, which raises \<open>TypeError\<close> for a number, a bool or \<open>None\<close>.\<close>

fun py_in :: "pystr \<Rightarrow> 'n json \<Rightarrow> py_error + bool" where
  "py_in key (JObj kvs) = Inr (key \<in> fst ` set kvs)"
| "py_in key (JArr xs) = Inr (JStr key \<in> set xs)"
| "py_in key (JStr s) = Inr (sublist key s)"
| "py_in key v = Inl TypeError"

text \<open>
  One iteration of the \<open>while\<close> loop of \<open>run\<close> (lines 317 to 337): it ends the loop,
  by \<open>break\<close> (\<open>Stop None\<close>) or by an exception (\<open>Stop (Some e)\<close>), or it goes on.
\<close>

datatype 'a iteration = Stop "py_error option" 'a | Continue 'a

definition loop_body :: "config \<Rightarrow> 'n json_codec \<Rightarrow> proxy \<Rightarrow> proxy iteration" where
  "loop_body cfg codec st =
    (case read_message codec (stdin st) of
       (client_msg, lg, rest) \<Rightarrow>
         let st1 = st\<lparr>stdin := rest, log := log st @ lg\<rparr> in
         if client_msg = JNull
         then Stop None (st1\<lparr>log := log st1 @ [LogClientDisconnected]\<rparr>)
         else
           (case process_message cfg client_msg (lit ''to_container'') of
              Inl e \<Rightarrow> Stop (Some e) st1
            | Inr server_msg \<Rightarrow>
                (case write_message codec (child_stdin st1) server_msg of
                   (cin, lg2) \<Rightarrow>
                     let st2 = st1\<lparr>child_stdin := cin, log := log st1 @ lg2\<rparr> in
                     (case py_in (lit ''id'') client_msg of
                        Inl e \<Rightarrow> Stop (Some e) st2
                      | Inr False \<Rightarrow> Continue st2
                      | Inr True \<Rightarrow>
                          (case read_message codec (child_stdout st2) of
                             (server_response, lg3, crest) \<Rightarrow>
                               let st3 = st2\<lparr>child_stdout := crest, log := log st2 @ lg3\<rparr> in
                               if server_response = JNull
                               then Stop None (st3\<lparr>log := log st3 @ [LogServerDisconnected]\<rparr>)
                               else
                                 (case process_message cfg server_response (lit ''to_host'') of
                                    Inl e \<Rightarrow> Stop (Some e) st3
                                  | Inr client_response \<Rightarrow>
                                      (case write_message codec (stdout st3) client_response of
                                         (out, lg4) \<Rightarrow>
                                           Continue
                                             (st3\<lparr>stdout := out, log := log st3 @ lg4\<rparr>))))))))"

text \<open>
  The \<open>while\<close> loop of \<open>run\<close>. A message that is not \<open>None\<close> takes at least its blank
  line from the client's stream, so the loop ends; it returns the exception that ended
  it, if one did, and the state.
\<close>

lemma read_headers_shorter:
  "read_headers headers s = Headers hs rest \<Longrightarrow> length rest < length s"
proof (induction headers s rule: read_headers.induct)
  case (1 headers s)
  obtain line r where lr: "readline s = (line, r)" by (cases "readline s")
  show ?case
  proof (cases "line = []")
    case True
    with lr "1.prems" show ?thesis by (simp add: read_headers.simps [of headers s])
  next
    case False
    from readline_shorter [OF lr False] have less: "length r < length s" .
    show ?thesis
    proof (cases "line = [13, 10]")
      case True
      with lr False "1.prems" less show ?thesis
        by (simp add: read_headers.simps [of headers s])
    next
      case nb: False
      show ?thesis
      proof (cases "58 \<in> set line")
        case True
        show ?thesis
        proof (cases "split_once 58 (utf8_decode_replace line)")
          case None
          with lr False nb True "1.prems" show ?thesis
            by (simp add: read_headers.simps [of headers s])
        next
          case (Some kv)
          obtain key v where kv: "kv = (key, v)" by (cases kv)
          from lr False nb True Some kv "1.prems"
          have "read_headers (dict_set headers (lower (strip key)) (strip v)) r = Headers hs rest"
            by (simp add: read_headers.simps [of headers s])
          from "1.IH"(1) [OF lr [symmetric] False nb True Some kv [symmetric] this] less
          show ?thesis by simp
        qed
      next
        case nc: False
        from lr False nb nc "1.prems"
        have "read_headers headers r = Headers hs rest"
          by (simp add: read_headers.simps [of headers s])
        from "1.IH"(2) [OF lr [symmetric] False nb nc this] less
        show ?thesis by simp
      qed
    qed
  qed
qed

lemma read_message_shorter:
  assumes "read_message codec s = (m, lg, rest)" and "m \<noteq> JNull"
  shows "length rest < length s"
proof (cases "read_headers [] s")
  case StreamEnded
  with assms show ?thesis by (simp add: read_message_def)
next
  case (HeaderError e r)
  with assms show ?thesis by (simp add: read_message_def)
next
  case (Headers hs r)
  from read_headers_shorter [OF Headers] have "length r < length s" .
  moreover have "length rest \<le> length r"
    using assms Headers
    by (auto simp: read_message_def stream_read_def split: option.splits if_splits)
  ultimately show ?thesis by simp
qed

lemma loop_body_Continue_shorter:
  assumes "loop_body cfg codec st = Continue st'"
  shows "length (stdin st') < length (stdin st)"
proof -
  obtain m lg rest where rm: "read_message codec (stdin st) = (m, lg, rest)"
    by (cases "read_message codec (stdin st)")
  from assms rm have m: "m \<noteq> JNull"
    by (auto simp: loop_body_def Let_def)
  from assms rm m have "stdin st' = rest"
    by (auto simp: loop_body_def Let_def split: sum.splits prod.splits bool.splits if_splits)
  with read_message_shorter [OF rm m] show ?thesis by simp
qed

function run_loop :: "config \<Rightarrow> 'n json_codec \<Rightarrow> proxy \<Rightarrow> py_error option \<times> proxy" where
  "run_loop cfg codec st =
    (if \<not> running st then (None, st)
     else (case loop_body cfg codec st of
        Stop exc st' \<Rightarrow> (exc, st')
      | Continue st' \<Rightarrow> run_loop cfg codec st'))"
  by pat_completeness auto
termination
  by (relation "measure (\<lambda>(cfg, codec, st). length (stdin st))")
    (auto dest: loop_body_Continue_shorter)

declare run_loop.simps [simp del]

text \<open>
  \<open>shutdown\<close>: \<open>terminate()\<close> and \<open>wait(timeout=5)\<close>, then \<open>kill()\<close> when the wait
  timed out. A child that has exited stays as it is.
\<close>

definition shutdown :: "proxy \<Rightarrow> proxy" where
  "shutdown st =
    st\<lparr>running := False,
       child :=
         (case child st of
            ChildRunning \<Rightarrow> if exits_on_terminate st then ChildTerminated else ChildKilled
          | c \<Rightarrow> c),
       shutdown_calls := Suc (shutdown_calls st),
       log := log st @ [LogShuttingDown, LogShutdownComplete]\<rparr>"

text \<open>
  \<open>run\<close>: the loop, the handler for an exception that left it, and \<open>shutdown\<close> in the
  \<open>finally\<close> clause. A \<open>KeyboardInterrupt\<close> arrives from outside and is not modelled.
\<close>

definition run :: "config \<Rightarrow> 'n json_codec \<Rightarrow> proxy \<Rightarrow> proxy" where
  "run cfg codec st =
    (case run_loop cfg codec (st\<lparr>log := log st @ [LogStartingLoop]\<rparr>) of
       (None, st') \<Rightarrow> shutdown st'
     | (Some e, st') \<Rightarrow> shutdown (st'\<lparr>log := log st' @ [LogUnexpectedError e]\<rparr>))"

section \<open>Definitions for the statements\<close>

text \<open>
  \<open>rewrite_path\<close> as the source would read with its second branch (lines 103 to 115,
  the test for \<open>file:///\<close>) deleted.
\<close>

definition rewrite_str_without_file3 :: "pystr \<Rightarrow> pystr \<Rightarrow> pystr \<Rightarrow> py_error + pystr" where
  "rewrite_str_without_file3 v from_prefix to_prefix =
    (if prefix (lit ''file://'') v then file_uri2_branch v from_prefix to_prefix
     else if prefix from_prefix v then Inr (to_prefix @ drop (length from_prefix) v)
     else Inr v)"

fun rewrite_path_without_file3 :: "'n json \<Rightarrow> pystr \<Rightarrow> pystr \<Rightarrow> py_error + 'n json" where
  "rewrite_path_without_file3 (JStr v) from_prefix to_prefix =
    (case rewrite_str_without_file3 v from_prefix to_prefix of
       Inl e \<Rightarrow> Inl e
     | Inr r \<Rightarrow> Inr (JStr r))"
| "rewrite_path_without_file3 v from_prefix to_prefix = Inr v"


text \<open>
  The words of the specification. A string is path-like for a prefix when it starts with the prefix or with
  \<open>file://\<close>; \<open>no_path_like m f\<close> says that no string value of the message \<open>m\<close> is
  path-like (keys are not values). A workspace folder is the mapping
  \<open>{"uri": u, "name": n}\<close>.
\<close>

definition path_like :: "pystr \<Rightarrow> pystr \<Rightarrow> bool" where
  "path_like from_prefix s = (prefix from_prefix s \<or> prefix (lit ''file://'') s)"


definition folder :: "pystr \<Rightarrow> pystr \<Rightarrow> 'n json" where
  "folder u n = JObj [(lit ''uri'', JStr u), (lit ''name'', JStr n)]"

text \<open>
  The wire format of one message with the body \<open>body\<close>:
  \<open>Content-Length: <n>\r\n\r\n\<close> and the \<open>n\<close> octets of the body.
\<close>

definition frame_header :: "nat \<Rightarrow> bytes" where
  "frame_header n = lit ''Content-Length: '' @ str_nat n @ [13, 10, 13, 10]"

definition framed :: "bytes \<Rightarrow> bytes" where
  "framed body = frame_header (length body) @ body"

text \<open>
  For the examples, \<open>json.dumps\<close> and \<open>json.loads\<close> on the messages \<open>{}\<close> and
  \<open>{"id":1}\<close> (\<open>34\<close> is the double quote). \<open>json.loads\<close> rejects the other texts the
  examples give it; \<open>json.dumps\<close> is not called on another message there.
\<close>

definition id_request_text :: pystr where
  "id_request_text = lit ''{'' @ [34] @ lit ''id'' @ [34] @ lit '':1}''"

definition json_fragment :: "int json_codec" where
  "json_fragment =
    \<lparr>dumps = (\<lambda>m. if m = JObj [] then Some (lit ''{}'')
                   else if m = JObj [(lit ''id'', JNum 1)] then Some id_request_text
                   else None),
     loads = (\<lambda>text. if text = lit ''{}'' then Some (JObj [])
                      else if text = id_request_text then Some (JObj [(lit ''id'', JNum 1)])
                      else None)\<rparr>"

definition example_config :: config where
  "example_config = \<lparr>HOST_ROOT = lit ''/work/host'', CONTAINER_ROOT = lit ''/work/container''\<rparr>"

text \<open>The number a row of decimal digits stands for, read after the number \<open>acc\<close>.\<close>

definition digits_value :: "nat \<Rightarrow> pystr \<Rightarrow> nat" where
  "digits_value acc ds = foldl (\<lambda>a c. 10 * a + (c - 48)) acc ds"

definition open_stream :: ostream where
  "open_stream = \<lparr>written = [], budget = None\<rparr>"

definition broken_stream :: ostream where
  "broken_stream = \<lparr>written = [], budget = Some 0\<rparr>"

text \<open>
  The proxy after \<open>__init__\<close>: running, the child started, nothing written or logged.
  The client will send \<open>client_bytes\<close>, the child will print \<open>child_bytes\<close>, and
  \<open>to_child\<close> is the pipe to the child.
\<close>

definition initial_proxy :: "bytes \<Rightarrow> ostream \<Rightarrow> bytes \<Rightarrow> proxy" where
  "initial_proxy client_bytes to_child child_bytes =
    \<lparr>stdin = client_bytes, stdout = open_stream, child_stdin = to_child,
     child_stdout = child_bytes, running = True, child = ChildRunning,
     exits_on_terminate = True, shutdown_calls = 0, log = []\<rparr>"

section \<open>Properties of the path rewriter\<close>

subsection \<open>Dicts\<close>




subsection \<open>Strings that are not path-like\<close>

lemma file3_is_file2: "prefix (lit ''file:///'') s \<Longrightarrow> prefix (lit ''file://'') s"
  by (auto simp: lit_def prefix_def)





lemma rewrite_object_folder:
  assumes "rewrite_str u f t = Inr u'" and "\<not> path_like f n"
  shows "rewrite_object (folder u n) f t = Inr (folder u' n)"
proof -
  have keys: "lit ''uri'' \<in> set PATH_KEYS" "lit ''name'' \<notin> set PATH_KEYS"
      "lit ''uri'' \<noteq> lit ''name''"
    by (simp_all add: PATH_KEYS_def lit_def)
  have n: "\<not> prefix f n" "\<not> prefix (lit ''file://'') n"
    using assms(2) by (simp_all add: path_like_def)
  show ?thesis
    using keys n assms(1) by (simp add: folder_def dict_of_items_def)
qed

lemma rewrite_path_list_folder_Cons:
  "rewrite_path_list (folder u n # xs) f t =
    (case rewrite_object (folder u n) f t of
       Inl e \<Rightarrow> Inl e
     | Inr item \<Rightarrow>
         (case rewrite_path_list xs f t of Inl e \<Rightarrow> Inl e | Inr r \<Rightarrow> Inr (item # r)))"
  by (simp add: folder_def)

lemma rewrite_path_list_folders:
  assumes "list_all (\<lambda>fo. \<not> path_like f (snd fo)) fs"
    and "list_all (\<lambda>fo. \<not> isl (rewrite_str (fst fo) f t)) fs"
  shows "rewrite_path_list (map (\<lambda>fo. folder (fst fo) (snd fo)) fs :: 'a json list) f t
       = Inr (map (\<lambda>fo. folder (projr (rewrite_str (fst fo) f t)) (snd fo)) fs)"
  using assms
proof (induction fs)
  case Nil
  then show ?case by simp
next
  case (Cons fo fs)
  from Cons.prems have "rewrite_str (fst fo) f t = Inr (projr (rewrite_str (fst fo) f t))"
    by (cases "rewrite_str (fst fo) f t") simp_all
  with Cons.prems
  have "rewrite_object (folder (fst fo) (snd fo) :: 'a json) f t
          = Inr (folder (projr (rewrite_str (fst fo) f t)) (snd fo))"
    by (intro rewrite_object_folder) simp_all
  moreover note Cons.IH
  ultimately show ?case
    using Cons.prems
    by (simp add: rewrite_path_list_folder_Cons del: rewrite_path_list.simps)
qed

lemmas rewriter_eval =
  rewrite_str_def file_uri2_branch_def file_uri3_branch_def encode_uri_component_def
  decode_uri_component_def unquote_def unquote_run_def utf8_decode_replace_def is_hex_def
  hex_val_def quote_def lit_def utf8_encode_cp_def quote_byte_def always_safe_def
  hex_upper_def is_surrogate_def PATH_KEYS_def dict_of_items_def is_cont_def second_ok_def

subsection \<open>Round trip of a plain path\<close>



subsection \<open>The two examples of the specification\<close>

text \<open>
  Claim C2. \<open>rewrite_path\<close> maps \<open>file:///work/host/src/a.py\<close> to
  \<open>file:///work/container/src/a.py\<close>; the percent-encoding of \<open>/work/host/my file.py\<close>
  is \<open>/work/host/my%20file.py\<close> (and likewise under \<open>/work/container\<close>), and
  \<open>rewrite_path\<close> maps \<open>file://\<close> followed by the first to \<open>file://\<close> followed by the
  second.
\<close>

theorem rewrite_path_examples:
  "rewrite_path (JStr (lit ''file:///work/host/src/a.py''))
     (lit ''/work/host'') (lit ''/work/container'')
     = Inr (JStr (lit ''file:///work/container/src/a.py''))
   \<and> encode_uri_component (lit ''/work/host/my file.py'')
     = Inr (lit ''/work/host/my%20file.py'')
   \<and> encode_uri_component (lit ''/work/container/my file.py'')
     = Inr (lit ''/work/container/my%20file.py'')
   \<and> rewrite_path (JStr (lit ''file://'' @ lit ''/work/host/my%20file.py''))
     (lit ''/work/host'') (lit ''/work/container'')
     = Inr (JStr (lit ''file://'' @ lit ''/work/container/my%20file.py''))"
  by (simp add: rewriter_eval)

subsection \<open>Identity on messages without path-like strings\<close>



subsection \<open>Mappings and workspace folders\<close>

text \<open>
  Claim C7, as the specification states it, fails: the name of a workspace folder is a
  string like any other, and the fallback of \<open>rewrite_object\<close> rewrites it when it
  starts with the prefix. Here the folder is named by its path, and the name changes.
\<close>

theorem workspace_folder_name_rewritten:
  "rewrite_object
     (JObj [(lit ''workspaceFolders'',
             JArr [folder (lit ''file:///work/host/proj'') (lit ''/work/host/proj'')])])
     (lit ''/work/host'') (lit ''/work/container'')
   = Inr (JObj [(lit ''workspaceFolders'',
             JArr [folder (lit ''file:///work/container/proj'') (lit ''/work/container/proj'')])])"
  by (simp add: rewriter_eval folder_def)

text \<open>
  Claim C7, amended. The mapping \<open>{"uri": "file:///work/host/x.py", "otherField": n}\<close>
  rewritten from \<open>/work/host\<close> to \<open>/work/container\<close> is
  \<open>{"uri": "file:///work/container/x.py", "otherField": n}\<close>, in this order. In a list
  of workspace folders under the key \<open>workspaceFolders\<close>, when no name is path-like and
  the rewrite of no uri raises, every uri is rewritten by \<open>rewrite_path\<close> and every name
  is left as it is.
\<close>

theorem rewrite_object_mapping_and_folders:
  "rewrite_object
     (JObj [(lit ''uri'', JStr (lit ''file:///work/host/x.py'')), (lit ''otherField'', JNum n)])
     (lit ''/work/host'') (lit ''/work/container'')
     = Inr (JObj [(lit ''uri'', JStr (lit ''file:///work/container/x.py'')),
                  (lit ''otherField'', JNum n)])
   \<and> (list_all (\<lambda>fo. \<not> path_like f (snd fo)) fs \<longrightarrow>
      list_all (\<lambda>fo. \<not> isl (rewrite_str (fst fo) f t)) fs \<longrightarrow>
      rewrite_object
        (JObj [(lit ''workspaceFolders'', JArr (map (\<lambda>fo. folder (fst fo) (snd fo)) fs))]) f t
       = Inr (JObj [(lit ''workspaceFolders'',
            JArr (map (\<lambda>fo. folder (projr (rewrite_str (fst fo) f t)) (snd fo)) fs))]
              :: 'n json))"
proof -
  have 1: "rewrite_object
     (JObj [(lit ''uri'', JStr (lit ''file:///work/host/x.py'')), (lit ''otherField'', JNum n)])
     (lit ''/work/host'') (lit ''/work/container'')
     = Inr (JObj [(lit ''uri'', JStr (lit ''file:///work/container/x.py'')),
                  (lit ''otherField'', JNum n)])"
    by (simp add: rewriter_eval)
  have k: "lit ''workspaceFolders'' \<in> set PATH_KEYS"
    by (simp add: PATH_KEYS_def)
  have 2: "rewrite_object
        (JObj [(lit ''workspaceFolders'', JArr (map (\<lambda>fo. folder (fst fo) (snd fo)) fs))]) f t
       = Inr (JObj [(lit ''workspaceFolders'',
            JArr (map (\<lambda>fo. folder (projr (rewrite_str (fst fo) f t)) (snd fo)) fs))]
              :: 'n json)"
    if "list_all (\<lambda>fo. \<not> path_like f (snd fo)) fs"
      "list_all (\<lambda>fo. \<not> isl (rewrite_str (fst fo) f t)) fs"
    using k by (simp add: rewrite_path_list_folders [OF that] dict_of_items_def)
  from 1 2 show ?thesis by blast
qed

theorem rewrite_object_mapping_and_folders_witness:
  "rewrite_object
     (JObj [(lit ''workspaceFolders'',
             JArr [folder (lit ''file:///work/host/a'') (lit ''a''),
                   folder (lit ''file:///work/host/b'') (lit ''b'')])])
     (lit ''/work/host'') (lit ''/work/container'')
   = Inr (JObj [(lit ''workspaceFolders'',
             JArr [folder (lit ''file:///work/container/a'') (lit ''a''),
                   folder (lit ''file:///work/container/b'') (lit ''b'') :: int json])])"
proof -
  have r:
    "rewrite_str (lit ''file:///work/host/a'') (lit ''/work/host'') (lit ''/work/container'')
       = Inr (lit ''file:///work/container/a'')"
    "rewrite_str (lit ''file:///work/host/b'') (lit ''/work/host'') (lit ''/work/container'')
       = Inr (lit ''file:///work/container/b'')"
    by (simp_all add: rewriter_eval)
  have n: "\<not> path_like (lit ''/work/host'') (lit ''a'')"
      "\<not> path_like (lit ''/work/host'') (lit ''b'')"
    by (simp_all add: path_like_def lit_def)
  have "rewrite_object
          (JObj [(lit ''workspaceFolders'', JArr (map (\<lambda>fo. folder (fst fo) (snd fo))
             [(lit ''file:///work/host/a'', lit ''a''), (lit ''file:///work/host/b'', lit ''b'')]))])
          (lit ''/work/host'') (lit ''/work/container'')
       = Inr (JObj [(lit ''workspaceFolders'',
            JArr (map (\<lambda>fo. folder
                (projr (rewrite_str (fst fo) (lit ''/work/host'') (lit ''/work/container'')))
                (snd fo))
             [(lit ''file:///work/host/a'', lit ''a''), (lit ''file:///work/host/b'', lit ''b'')]))]
              :: int json)"
    by (rule rewrite_object_mapping_and_folders [THEN conjunct2, rule_format])
      (simp_all add: r n)
  then show ?thesis by (simp add: r)
qed

subsection \<open>Totality\<close>

text \<open>
  Claim C8 fails on a string with a lone surrogate: \<open>json.loads\<close> returns one for the
  escape \<open>\ud800\<close>, \<open>urllib.parse.quote\<close> cannot encode it, and \<open>rewrite_object\<close> raises
  \<open>UnicodeEncodeError\<close> for a \<open>file://\<close> URI under the prefix that contains it.
\<close>

theorem rewrite_object_raises_on_surrogate:
  "rewrite_object (JObj [(lit ''uri'', JStr (lit ''file:///work/host/'' @ [0xD800]))])
     (lit ''/work/host'') (lit ''/work/container'') = Inl UnicodeEncodeError"
  by (simp add: rewriter_eval)

lemma rewrite_object_scalars:
  "rewrite_object JNull f t = Inr JNull"
  "rewrite_object (JBool b) f t = Inr (JBool b)"
  "rewrite_object (JNum n) f t = Inr (JNum n)"
  by simp_all

subsection \<open>The unreachable branch\<close>

text \<open>
  Claim C10. \<open>rewrite_path\<close> equals the function without the \<open>file:///\<close> branch on every
  input; a string that starts with \<open>file:///\<close> is handled by the \<open>file://\<close> branch, whose
  extracted path keeps the third slash; and the \<open>file:///\<close> branch, were it reached for
  \<open>file:///work/host/src/a.py\<close>, would return the string unchanged, where \<open>rewrite_path\<close>
  rewrites it.
\<close>

theorem file3_branch_unreachable:
  "rewrite_path v f t = rewrite_path_without_file3 v f t
   \<and> rewrite_str (lit ''file:///'' @ rest) f t = file_uri2_branch (lit ''file:///'' @ rest) f t
   \<and> drop 7 (lit ''file:///'' @ rest) = lit ''/'' @ rest
   \<and> file_uri3_branch (lit ''file:///work/host/src/a.py'')
       (lit ''/work/host'') (lit ''/work/container'')
     = Inr (lit ''file:///work/host/src/a.py'')
   \<and> rewrite_str (lit ''file:///work/host/src/a.py'')
       (lit ''/work/host'') (lit ''/work/container'')
     = Inr (lit ''file:///work/container/src/a.py'')"
proof -
  have a: "rewrite_str s f t = rewrite_str_without_file3 s f t" for s
    using file3_is_file2 [of s] by (auto simp: rewrite_str_def rewrite_str_without_file3_def)
  have 1: "rewrite_path v f t = rewrite_path_without_file3 v f t"
    by (cases v) (simp_all add: a)
  have 2: "rewrite_str (lit ''file:///'' @ rest) f t
             = file_uri2_branch (lit ''file:///'' @ rest) f t"
    by (simp add: rewrite_str_def lit_def)
  have 3: "drop 7 (lit ''file:///'' @ rest) = lit ''/'' @ rest"
    by (simp add: lit_def)
  have 4: "file_uri3_branch (lit ''file:///work/host/src/a.py'')
             (lit ''/work/host'') (lit ''/work/container'')
           = Inr (lit ''file:///work/host/src/a.py'')"
    by (simp add: file_uri3_branch_def lit_def)
  have 5: "rewrite_str (lit ''file:///work/host/src/a.py'')
             (lit ''/work/host'') (lit ''/work/container'')
           = Inr (lit ''file:///work/container/src/a.py'')"
    by (simp add: rewriter_eval)
  show ?thesis using 1 2 3 4 5 by blast
qed

section \<open>Properties of the framer\<close>

subsection \<open>ASCII text, decimal numerals and header lines\<close>

lemma utf8_encode_ascii: "list_all (\<lambda>c. c < 128) s \<Longrightarrow> utf8_encode s = Some s"
  by (induction s) (simp_all add: utf8_encode_cp_def)

lemma utf8_decode_items_ascii: "list_all (\<lambda>c. c < 128) s \<Longrightarrow> utf8_decode_items s = map Some s"
  by (induction s) simp_all

lemma utf8_decode_replace_ascii: "list_all (\<lambda>c. c < 128) s \<Longrightarrow> utf8_decode_replace s = s"
  by (simp add: utf8_decode_replace_def utf8_decode_items_ascii comp_def)

lemma utf8_decode_strict_ascii: "list_all (\<lambda>c. c < 128) s \<Longrightarrow> utf8_decode_strict s = Some s"
  by (auto simp: utf8_decode_strict_def utf8_decode_items_ascii comp_def)

lemma str_nat_digits: "list_all is_digit (str_nat n)"
proof (induction n rule: str_nat.induct)
  case (1 n)
  show ?case
  proof (cases "n < 10")
    case True
    then show ?thesis by (subst str_nat.simps) (simp add: is_digit_def)
  next
    case False
    have "n mod 10 < 10" by simp
    then have "is_digit (48 + n mod 10)" unfolding is_digit_def by linarith
    with False "1.IH" show ?thesis by (subst str_nat.simps) simp
  qed
qed

lemma str_nat_not_Nil: "str_nat n \<noteq> []"
  by (subst str_nat.simps) simp

lemma int_digits_value:
  "list_all is_digit ds \<Longrightarrow> int_digits acc ds = Some (digits_value acc ds)"
  by (induction acc ds rule: int_digits.induct) (simp_all add: digits_value_def)

lemma digits_value_str_nat: "digits_value 0 (str_nat n) = n"
proof (induction n rule: str_nat.induct)
  case (1 n)
  show ?case
  proof (cases "n < 10")
    case True
    then show ?thesis by (subst str_nat.simps) (simp add: digits_value_def)
  next
    case False
    with "1.IH" have "digits_value 0 (str_nat (n div 10)) = n div 10" by simp
    with False show ?thesis
      by (subst str_nat.simps) (simp add: digits_value_def)
  qed
qed

lemma int_unsigned_str_nat: "int_unsigned (str_nat n) = Some n"
proof -
  obtain c cs where cs: "str_nat n = c # cs"
    using str_nat_not_Nil [of n] by (cases "str_nat n") auto
  with str_nat_digits [of n] have d: "is_digit c" "list_all is_digit cs" by simp_all
  have "digits_value (c - 48) cs = digits_value 0 (c # cs)"
    by (simp add: digits_value_def)
  with cs d show ?thesis
    by (simp add: int_unsigned_def int_digits_value digits_value_str_nat [of n, unfolded cs])
qed

lemma digit_not_space: "is_digit c \<Longrightarrow> \<not> py_isspace c \<and> \<not> int_isspace c"
  by (auto simp: is_digit_def py_isspace_def int_isspace_def)

lemma strip_chars_digits:
  assumes "list_all is_digit ds" and "ds \<noteq> []"
    and digits: "\<And>c. is_digit c \<Longrightarrow> \<not> space c"
    and that: "list_all space pre" "list_all space post"
  shows "strip_chars space (pre @ ds @ post) = ds"
proof -
  obtain c cs where cs: "ds = c # cs" using assms(2) by (cases ds) auto
  have 1: "dropWhile space (pre @ ds @ post) = ds @ post"
    using that(1) assms(1) cs
    by (simp add: dropWhile_append1 dropWhile_append2 list_all_iff digits)
  have l: "\<not> space (last ds)"
    using assms(1,2) by (simp add: list_all_iff digits)
  have "dropWhile space (rev post @ rev ds) = dropWhile space (rev ds)"
    using that(2) by (intro dropWhile_append2) (simp add: list_all_iff)
  moreover have "dropWhile space (rev ds) = rev ds"
    using l assms(2) by (simp add: dropWhile_eq_self_iff hd_rev)
  ultimately have 2: "dropWhile space (rev post @ rev ds) = rev ds"
    by simp
  show ?thesis by (simp add: strip_chars_def 1 2)
qed

lemma py_int_str_nat: "py_int (str_nat n) = Some (int n)"
proof -
  have "strip_chars int_isspace ([] @ str_nat n @ []) = str_nat n"
    by (intro strip_chars_digits str_nat_digits str_nat_not_Nil) (simp_all add: digit_not_space)
  then have s: "strip_chars int_isspace (str_nat n) = str_nat n"
    by simp
  obtain c cs where cs: "str_nat n = c # cs"
    using str_nat_not_Nil [of n] by (cases "str_nat n") auto
  with str_nat_digits [of n] have "is_digit c" by simp
  then have "c \<noteq> 45" "c \<noteq> 43" by (auto simp: is_digit_def)
  moreover have "strip_chars int_isspace (c # cs) = c # cs" using s cs by simp
  moreover have "int_unsigned (c # cs) = Some n" using int_unsigned_str_nat [of n] cs by simp
  ultimately show ?thesis
    by (simp add: py_int_def cs)
qed

lemma readline_to_newline:
  "10 \<notin> set xs \<Longrightarrow> readline (xs @ 10 # rest) = (xs @ [10], rest)"
  by (induction xs) auto

lemma digit_facts: "is_digit c \<Longrightarrow> c \<noteq> 10 \<and> c \<noteq> 58 \<and> c < 128 \<and> c \<noteq> 13"
  by (auto simp: is_digit_def)


lemma frame_header_ascii: "list_all (\<lambda>c. c < 128) (frame_header n)"
  using str_nat_digits [of n] digit_facts
  by (auto simp: frame_header_def lit_def list_all_iff)

lemma read_headers_Nil: "read_headers hs [] = StreamEnded"
  by (subst read_headers.simps) simp

lemma read_headers_blank: "read_headers hs (13 # 10 # rest) = Headers hs rest"
  by (subst read_headers.simps) simp

lemma read_headers_frame_header:
  "read_headers [] (frame_header n @ rest) = Headers [(lit ''content-length'', str_nat n)] rest"
proof -
  let ?n = "str_nat n"
  let ?line = "lit ''Content-Length: '' @ ?n @ [13, 10]"
  have dig: "\<forall>c \<in> set ?n. is_digit c"
    using str_nat_digits [of n] by (simp add: list_all_iff)
  have no10: "10 \<notin> set (lit ''Content-Length: '' @ ?n @ [13])"
    using dig digit_facts by (auto simp: lit_def)
  have fr: "frame_header n @ rest = (lit ''Content-Length: '' @ ?n @ [13]) @ 10 # (13 # 10 # rest)"
    by (simp add: frame_header_def)
  have rl1: "readline (frame_header n @ rest) = (?line, 13 # 10 # rest)"
    unfolding fr using readline_to_newline [OF no10] by simp
  have ascii: "list_all (\<lambda>c. c < 128) ?line"
    using dig digit_facts by (auto simp: lit_def list_all_iff)
  have tw: "takeWhile (\<lambda>c. c \<noteq> 58) ?line = lit ''Content-Length''"
    "dropWhile (\<lambda>c. c \<noteq> 58) ?line = 58 # 32 # ?n @ [13, 10]"
    by (simp_all add: lit_def)
  have sp: "split_once 58 (utf8_decode_replace ?line)
              = Some (lit ''Content-Length'', 32 # ?n @ [13, 10])"
    by (simp add: utf8_decode_replace_ascii [OF ascii] split_once_def tw) (simp add: lit_def)
  have key: "lower (strip (lit ''Content-Length'')) = lit ''content-length''"
    by (simp add: lower_def strip_def strip_chars_def lit_def py_isspace_def)
  have "list_all py_isspace [32]" "list_all py_isspace [13, 10]"
    by (simp_all add: py_isspace_def)
  then have "strip_chars py_isspace ([32] @ ?n @ [13, 10]) = ?n"
    by (intro strip_chars_digits str_nat_digits str_nat_not_Nil) (simp_all add: digit_not_space)
  then have val: "strip (32 # ?n @ [13, 10]) = ?n"
    by (simp add: strip_def)
  have l1: "?line \<noteq> []" "?line \<noteq> [13, 10]" "58 \<in> set ?line"
    by (simp_all add: lit_def)
  show ?thesis
    apply (subst read_headers.simps)
    apply (simp only: rl1 prod.case l1 if_False if_True sp option.case key val dict_set.simps
        read_headers_blank)
    done
qed

lemma content_length_of_frame:
  "content_length_of [(lit ''content-length'', str_nat n)] = Some (int n)"
  by (simp add: content_length_of_def py_int_str_nat)

lemma read_message_framed:
  assumes "body \<noteq> []" and "list_all (\<lambda>c. c < 128) body"
  shows "read_message codec (framed body @ after) =
    (case loads codec body of
       None \<Rightarrow> (JNull, [LogJsonDecodeError], after)
     | Some v \<Rightarrow> (v, [], after))"
  using assms
  by (simp add: read_message_def framed_def read_headers_frame_header content_length_of_frame
      stream_read_def utf8_decode_strict_ascii split: option.splits)

lemma write_message_open:
  assumes "dumps codec m = Some content" and "list_all (\<lambda>c. c < 128) content"
    and "budget stream = None"
  shows "write_message codec stream m
           = (stream\<lparr>written := written stream @ framed content\<rparr>, [])"
  using assms frame_header_ascii [of "length content"]
  by (simp add: write_message_def utf8_encode_ascii stream_write_def stream_flush_def
      framed_def frame_header_def)

lemma write_message_broken:
  assumes "budget stream = Some 0"
  shows "\<exists>e. write_message codec stream m = (stream, [LogErrorWriting e])"
  using assms frame_header_ascii [of n for n]
  by (auto simp: write_message_def utf8_encode_ascii stream_write_def frame_header_def
      split: option.splits)


lemma json_fragment_simps:
  "dumps json_fragment (JObj []) = Some (lit ''{}'')"
  "dumps json_fragment (JObj [(lit ''id'', JNum 1)]) = Some id_request_text"
  "loads json_fragment (lit ''{}'') = Some (JObj [])"
  "loads json_fragment id_request_text = Some (JObj [(lit ''id'', JNum 1)])"
  "loads json_fragment (lit ''xx'') = None"
  by (simp_all add: json_fragment_def id_request_text_def lit_def)

lemma example_texts_ascii:
  "list_all (\<lambda>c. c < 128) (lit ''{}'')" "list_all (\<lambda>c. c < 128) id_request_text"
  "list_all (\<lambda>c. c < 128) (lit ''xx'')"
  "lit ''{}'' \<noteq> []" "id_request_text \<noteq> []" "lit ''xx'' \<noteq> []"
  by (simp_all add: id_request_text_def lit_def)


subsection \<open>Round trip\<close>

text \<open>
  Claim C6. Let \<open>json.dumps\<close> give the non-empty ASCII text \<open>content\<close> for the message
  \<open>m\<close> (its output is ASCII, \<open>ensure_ascii\<close> being left on) and let \<open>json.loads\<close> read
  that text back as \<open>m\<close>. Then \<open>write_message\<close> on an empty stream that does not fail
  writes \<open>Content-Length: <n>\r\n\r\n\<close> and the \<open>n\<close> octets of the text, logging
  nothing, and \<open>read_message\<close> on what was written returns \<open>m\<close>, logs nothing and
  leaves the stream empty.
\<close>

theorem framer_round_trip:
  assumes "dumps codec m = Some content" and "content \<noteq> []"
    and "list_all (\<lambda>c. c < 128) content" and "loads codec content = Some m"
    and "budget stream = None" and "written stream = []"
  shows "write_message codec stream m = (stream\<lparr>written := framed content\<rparr>, [])
       \<and> read_message codec (framed content) = (m, [], [])"
  using assms write_message_open [of codec m content stream]
    read_message_framed [of content codec "[]"]
  by simp


theorem framer_round_trip_witness:
  "write_message json_fragment open_stream (JObj [(lit ''id'', JNum 1)])
     = (open_stream\<lparr>written := framed id_request_text\<rparr>, [])
   \<and> read_message json_fragment (framed id_request_text) = (JObj [(lit ''id'', JNum 1)], [], [])"
  by (rule framer_round_trip) (simp_all add: json_fragment_simps example_texts_ascii open_stream_def)

subsection \<open>Malformed messages\<close>

lemma read_message_Nil: "read_message codec [] = (JNull, [], [])"
  by (simp add: read_message_def read_headers_Nil)

text \<open>
  Claim C3, as the specification states it, fails: \<open>read_message\<close> returns \<open>None\<close> at
  the end of the stream, and it returns the same \<open>None\<close> for a blank line without a
  content-length header, for a body shorter than its content-length and for a body that
  is not JSON. The caller cannot tell a framing error from the end of the stream.
\<close>

theorem framing_error_same_as_end_of_stream:
  "fst (read_message json_fragment []) = JNull
   \<and> fst (read_message json_fragment [13, 10]) = fst (read_message json_fragment [])
   \<and> fst (read_message json_fragment (frame_header 5 @ lit ''{}''))
       = fst (read_message json_fragment [])
   \<and> fst (read_message json_fragment (framed (lit ''xx'')))
       = fst (read_message json_fragment [])"
proof -
  have 1: "fst (read_message json_fragment []) = JNull"
    by (simp add: read_message_Nil)
  have 2: "fst (read_message json_fragment [13, 10]) = JNull"
    by (simp add: read_message_def read_headers_blank content_length_of_def)
  have len: "length (lit ''{}'') = 2" by (simp add: lit_def)
  have 3: "fst (read_message json_fragment (frame_header 5 @ lit ''{}'')) = JNull"
    by (simp add: read_message_def read_headers_frame_header content_length_of_frame
        stream_read_def len)
  have 4: "fst (read_message json_fragment (framed (lit ''xx''))) = JNull"
    using read_message_framed [of "lit ''xx''" json_fragment "[]"]
    by (simp add: example_texts_ascii json_fragment_simps)
  from 1 2 3 4 show ?thesis by simp
qed

text \<open>
  Claim C3, amended. \<open>read_message\<close> raises nothing and returns \<open>None\<close> when the stream
  ends before a blank header line, and it returns the same \<open>None\<close> when the blank line
  is reached and the content-length header is absent or zero, when fewer octets than
  the content-length are left, when the body is not UTF-8, and when \<open>json.loads\<close>
  rejects it.
\<close>

theorem read_message_malformed_is_None:
  "(read_headers [] s = StreamEnded \<longrightarrow> fst (read_message codec s) = JNull)
   \<and> (read_headers [] s = Headers hs rest \<longrightarrow> map_of hs (lit ''content-length'') = None
        \<longrightarrow> fst (read_message codec s) = JNull)
   \<and> (read_headers [] s = Headers hs rest \<longrightarrow> content_length_of hs = Some 0
        \<longrightarrow> fst (read_message codec s) = JNull)
   \<and> (read_headers [] s = Headers hs rest \<longrightarrow> content_length_of hs = Some n
        \<longrightarrow> int (length rest) < n \<longrightarrow> fst (read_message codec s) = JNull)
   \<and> (read_headers [] s = Headers hs rest \<longrightarrow> content_length_of hs = Some n
        \<longrightarrow> utf8_decode_strict (fst (stream_read n rest)) = None
        \<longrightarrow> fst (read_message codec s) = JNull)
   \<and> (read_headers [] s = Headers hs rest \<longrightarrow> content_length_of hs = Some n
        \<longrightarrow> utf8_decode_strict (fst (stream_read n rest)) = Some decoded
        \<longrightarrow> loads codec decoded = None \<longrightarrow> fst (read_message codec s) = JNull)"
  by (auto simp: read_message_def content_length_of_def stream_read_def
      split: option.splits prod.splits if_splits)

theorem read_message_malformed_is_None_witness:
  "fst (read_message json_fragment []) = JNull
   \<and> fst (read_message json_fragment [13, 10]) = JNull
   \<and> fst (read_message json_fragment (frame_header 0 @ lit ''{}'')) = JNull
   \<and> fst (read_message json_fragment (frame_header 5 @ lit ''{}'')) = JNull
   \<and> fst (read_message json_fragment (frame_header 1 @ [255])) = JNull
   \<and> fst (read_message json_fragment (framed (lit ''xx''))) = JNull"
proof -
  note c = read_message_malformed_is_None [where codec = json_fragment]
  have 1: "fst (read_message json_fragment []) = JNull"
    by (rule c [THEN conjunct1, rule_format]) (simp add: read_headers_Nil)
  have 2: "fst (read_message json_fragment [13, 10]) = JNull"
    by (rule c [THEN conjunct2, THEN conjunct1, rule_format, of _ "[]" "[]"])
      (simp_all add: read_headers_blank)
  have 3: "fst (read_message json_fragment (frame_header 0 @ lit ''{}'')) = JNull"
    by (rule c [THEN conjunct2, THEN conjunct2, THEN conjunct1, rule_format])
      (rule read_headers_frame_header, simp add: content_length_of_frame)
  have 4: "fst (read_message json_fragment (frame_header 5 @ lit ''{}'')) = JNull"
    by (rule c [THEN conjunct2, THEN conjunct2, THEN conjunct2, THEN conjunct1, rule_format])
      (rule read_headers_frame_header, rule content_length_of_frame, simp add: lit_def)
  have 5: "fst (read_message json_fragment (frame_header 1 @ [255])) = JNull"
    by (rule c [THEN conjunct2, THEN conjunct2, THEN conjunct2, THEN conjunct2, THEN conjunct1,
          rule_format])
      (rule read_headers_frame_header, rule content_length_of_frame,
        simp add: stream_read_def utf8_decode_strict_def)
  have 6: "fst (read_message json_fragment (framed (lit ''xx''))) = JNull"
    unfolding framed_def
    by (rule c [THEN conjunct2, THEN conjunct2, THEN conjunct2, THEN conjunct2, THEN conjunct2,
          rule_format, where decoded = "lit ''xx''"])
      (rule read_headers_frame_header, rule content_length_of_frame,
        simp_all add: stream_read_def utf8_decode_strict_ascii example_texts_ascii
          json_fragment_simps)
  from 1 2 3 4 5 6 show ?thesis by simp
qed

section \<open>Properties of the proxy loop\<close>

lemma run_loop_Stop:
  "running st \<Longrightarrow> loop_body cfg codec st = Stop exc st' \<Longrightarrow> run_loop cfg codec st = (exc, st')"
  by (simp add: run_loop.simps [of cfg codec st])

lemma run_loop_Continue:
  "running st \<Longrightarrow> loop_body cfg codec st = Continue st' \<Longrightarrow>
   run_loop cfg codec st = run_loop cfg codec st'"
  by (simp add: run_loop.simps [of cfg codec st])

lemma loop_body_request_no_response:
  assumes rm: "read_message codec (stdin st) = (JObj kvs, lg, rest)"
    and id: "lit ''id'' \<in> fst ` set kvs"
    and eof: "fst (read_message codec (child_stdout st)) = JNull"
  shows "\<exists>exc st'. loop_body cfg codec st = Stop exc st' \<and> stdin st' = rest
           \<and> stdout st' = stdout st \<and> running st' = running st
           \<and> shutdown_calls st' = shutdown_calls st"
proof -
  obtain r lg3 crest where cr: "read_message codec (child_stdout st) = (r, lg3, crest)"
    by (cases "read_message codec (child_stdout st)")
  with eof have r: "r = JNull" by simp
  show ?thesis
  proof (cases "process_message cfg (JObj kvs) (lit ''to_container'')")
    case (Inl e)
    with rm show ?thesis by (simp add: loop_body_def)
  next
    case (Inr server_msg)
    obtain cin lg2 where w: "write_message codec (child_stdin st) server_msg = (cin, lg2)"
      by (cases "write_message codec (child_stdin st) server_msg")
    from rm Inr w id cr r show ?thesis
      by (simp add: loop_body_def Let_def)
  qed
qed

subsection \<open>A request without a response\<close>

text \<open>
  Claim C9. The proxy is running, the client's next message is a dict with the key
  \<open>id\<close>, and \<open>read_message\<close> on the child's output returns \<open>None\<close> (as it does when
  that stream has ended). Then \<open>run\<close> returns: \<open>running\<close> is false, \<open>shutdown\<close> was called
  once, the child is no longer running, the loop did not read past that message of the
  client, and nothing was written to the client.
\<close>

theorem request_without_response_stops:
  assumes "running st"
    and "read_message codec (stdin st) = (JObj kvs, lg, rest)"
    and "lit ''id'' \<in> fst ` set kvs"
    and "fst (read_message codec (child_stdout st)) = JNull"
  shows "\<not> running (run cfg codec st)
       \<and> shutdown_calls (run cfg codec st) = Suc (shutdown_calls st)
       \<and> child (run cfg codec st) \<noteq> ChildRunning
       \<and> stdin (run cfg codec st) = rest
       \<and> stdout (run cfg codec st) = stdout st"
proof -
  let ?st = "st\<lparr>log := log st @ [LogStartingLoop]\<rparr>"
  from loop_body_request_no_response [of codec ?st kvs lg rest cfg] assms
  obtain exc st' where lb: "loop_body cfg codec ?st = Stop exc st'"
    and st': "stdin st' = rest" "stdout st' = stdout st" "shutdown_calls st' = shutdown_calls st"
    by auto
  from assms(1) have "running ?st" by simp
  from run_loop_Stop [OF this lb] have rl: "run_loop cfg codec ?st = (exc, st')" .
  show ?thesis
    using rl st' by (cases exc) (auto simp: run_def shutdown_def split: child_status.splits)
qed

theorem request_without_response_stops_witness:
  "\<not> running (run example_config json_fragment
        (initial_proxy (framed id_request_text @ framed (lit ''{}'')) open_stream []))
   \<and> shutdown_calls (run example_config json_fragment
        (initial_proxy (framed id_request_text @ framed (lit ''{}'')) open_stream [])) = Suc 0
   \<and> child (run example_config json_fragment
        (initial_proxy (framed id_request_text @ framed (lit ''{}'')) open_stream [])) \<noteq> ChildRunning
   \<and> stdin (run example_config json_fragment
        (initial_proxy (framed id_request_text @ framed (lit ''{}'')) open_stream []))
       = framed (lit ''{}'')
   \<and> stdout (run example_config json_fragment
        (initial_proxy (framed id_request_text @ framed (lit ''{}'')) open_stream [])) = open_stream"
proof -
  let ?st = "initial_proxy (framed id_request_text @ framed (lit ''{}'')) open_stream []"
  have 1: "running ?st" by (simp add: initial_proxy_def)
  have 2: "read_message json_fragment (stdin ?st)
             = (JObj [(lit ''id'', JNum 1)], [], framed (lit ''{}''))"
    by (simp add: initial_proxy_def read_message_framed example_texts_ascii json_fragment_simps)
  have 3: "lit ''id'' \<in> fst ` set [(lit ''id'', JNum (1::int))]" by simp
  have 4: "fst (read_message json_fragment (child_stdout ?st)) = JNull"
    by (simp add: initial_proxy_def read_message_Nil)
  from request_without_response_stops [OF 1 2 3 4, of example_config] show ?thesis
    by (simp add: initial_proxy_def)
qed

subsection \<open>A write that fails\<close>

lemma process_empty:
  "process_message example_config (JObj []) (lit ''to_container'') = Inr (JObj [])"
  by (simp add: process_message_def example_config_def dict_of_items_def)

lemma write_broken_empty:
  "write_message json_fragment broken_stream (JObj [])
     = (broken_stream, [LogErrorWriting OSError])"
  using frame_header_ascii [of "length (lit ''{}'')"]
  by (simp add: write_message_def json_fragment_simps utf8_encode_ascii example_texts_ascii
      stream_write_def broken_stream_def frame_header_def)

lemma loop_body_notification_broken:
  assumes "child_stdin st = broken_stream"
    and "stdin st = framed (lit ''{}'') @ rest"
  shows "loop_body example_config json_fragment st
           = Continue (st\<lparr>stdin := rest, log := log st @ [LogErrorWriting OSError]\<rparr>)"
  using assms
  by (simp add: loop_body_def read_message_framed example_texts_ascii json_fragment_simps
      process_empty write_broken_empty)

lemma loop_body_end:
  assumes "stdin st = []"
  shows "loop_body cfg codec st = Stop None (st\<lparr>log := log st @ [LogClientDisconnected]\<rparr>)"
  using assms by (simp add: loop_body_def read_message_Nil)

text \<open>
  Claim C4, as the specification states it, fails: with a pipe to the child on which
  every write raises, the loop forwards (and loses) both notifications of the client,
  logs two write errors, and stops only when the client's stream ends.
\<close>

theorem loop_continues_after_write_error:
  "run example_config json_fragment
     (initial_proxy (framed (lit ''{}'') @ framed (lit ''{}'')) broken_stream [])
   = \<lparr>stdin = [], stdout = open_stream, child_stdin = broken_stream, child_stdout = [],
      running = False, child = ChildTerminated, exits_on_terminate = True,
      shutdown_calls = 1,
      log = [LogStartingLoop, LogErrorWriting OSError, LogErrorWriting OSError,
             LogClientDisconnected, LogShuttingDown, LogShutdownComplete]\<rparr>"
proof -
  let ?s0 = "(initial_proxy (framed (lit ''{}'') @ framed (lit ''{}'')) broken_stream [])
               \<lparr>log := [LogStartingLoop]\<rparr>"
  let ?s1 = "?s0\<lparr>stdin := framed (lit ''{}'') @ [],
                  log := [LogStartingLoop, LogErrorWriting OSError]\<rparr>"
  let ?s2 = "?s1\<lparr>stdin := [],
                  log := [LogStartingLoop, LogErrorWriting OSError, LogErrorWriting OSError]\<rparr>"
  let ?s3 = "?s2\<lparr>log := [LogStartingLoop, LogErrorWriting OSError, LogErrorWriting OSError,
                  LogClientDisconnected]\<rparr>"
  have b0: "loop_body example_config json_fragment ?s0 = Continue ?s1"
    using loop_body_notification_broken [of ?s0 "framed (lit ''{}'') @ []"]
    by (simp add: initial_proxy_def)
  have b1: "loop_body example_config json_fragment ?s1 = Continue ?s2"
    using loop_body_notification_broken [of ?s1 "[]"]
    by (simp add: initial_proxy_def)
  have b2: "loop_body example_config json_fragment ?s2 = Stop None ?s3"
    using loop_body_end [of ?s2 example_config json_fragment]
    by (simp add: initial_proxy_def)
  have r: "running ?s0" "running ?s1" "running ?s2"
    by (simp_all add: initial_proxy_def)
  have "run_loop example_config json_fragment ?s0 = (None, ?s3)"
    using run_loop_Continue [OF r(1) b0] run_loop_Continue [OF r(2) b1]
      run_loop_Stop [OF r(3) b2]
    by simp
  then show ?thesis
    by (simp add: run_def shutdown_def initial_proxy_def)
qed

text \<open>
  Claim C4, amended. The proxy is running, the client's next message is a dict without
  the key \<open>id\<close>, and every write to the child raises. Then \<open>write_message\<close> logs the
  error and returns with the stream as it was, the iteration ends without leaving the
  loop, and the loop goes on from the state after it: the write error does not stop the
  proxy.
\<close>

theorem write_error_absorbed:
  assumes "running st"
    and "read_message codec (stdin st) = (JObj kvs, lg, rest)"
    and "process_message cfg (JObj kvs) (lit ''to_container'') = Inr server_msg"
    and "lit ''id'' \<notin> fst ` set kvs"
    and "budget (child_stdin st) = Some 0"
  shows "\<exists>e. write_message codec (child_stdin st) server_msg
               = (child_stdin st, [LogErrorWriting e])
           \<and> loop_body cfg codec st
               = Continue (st\<lparr>stdin := rest, log := log st @ lg @ [LogErrorWriting e]\<rparr>)
           \<and> run_loop cfg codec st
               = run_loop cfg codec (st\<lparr>stdin := rest, log := log st @ lg @ [LogErrorWriting e]\<rparr>)"
proof -
  from write_message_broken [OF assms(5), of codec server_msg]
  obtain e where w: "write_message codec (child_stdin st) server_msg
      = (child_stdin st, [LogErrorWriting e])"
    by blast
  have lb: "loop_body cfg codec st
      = Continue (st\<lparr>stdin := rest, log := log st @ lg @ [LogErrorWriting e]\<rparr>)"
    using assms(2-4) w by (simp add: loop_body_def)
  from run_loop_Continue [OF assms(1) lb] w lb show ?thesis by blast
qed

theorem write_error_absorbed_witness:
  "\<exists>e. loop_body example_config json_fragment
          (initial_proxy (framed (lit ''{}'') @ framed (lit ''{}'')) broken_stream [])
        = Continue ((initial_proxy (framed (lit ''{}'') @ framed (lit ''{}'')) broken_stream [])
            \<lparr>stdin := framed (lit ''{}''), log := [LogErrorWriting e]\<rparr>)"
proof -
  let ?st = "initial_proxy (framed (lit ''{}'') @ framed (lit ''{}'')) broken_stream []"
  have 1: "running ?st" by (simp add: initial_proxy_def)
  have 2: "read_message json_fragment (stdin ?st) = (JObj [], [], framed (lit ''{}''))"
    by (simp add: initial_proxy_def read_message_framed example_texts_ascii json_fragment_simps)
  have 4: "lit ''id'' \<notin> fst ` set ([] :: (pystr \<times> int json) list)" by simp
  have 5: "budget (child_stdin ?st) = Some 0"
    by (simp add: initial_proxy_def broken_stream_def)
  from write_error_absorbed [OF 1 2 process_empty 4 5] show ?thesis
    by (auto simp: initial_proxy_def)
qed

end
